theory Spec2Isabelle
  imports Main "HOL-Library.Word"
begin

unbundle bit_operations_syntax

section \<open>The termios serial endpoint of gensio (sergensio_termios.c)\<close>

text \<open>
  A shallow embedding of the serial control plane of \<^verbatim>\<open>gensio/sergensio_termios.c\<close>:
  the operation queue (\<^verbatim>\<open>termios_set_get\<close>, \<^verbatim>\<open>termios_process\<close>,
  \<^verbatim>\<open>sterm_deferred_op\<close>), the DTR and RTS accessors, the modem-state poller
  (\<^verbatim>\<open>termios_timeout\<close>, \<^verbatim>\<open>sterm_modemstate\<close>) and the life cycle
  (\<^verbatim>\<open>sterm_sub_open\<close>, \<^verbatim>\<open>sterm_check_close_drain\<close>).

  C \<^verbatim>\<open>int\<close> and \<^verbatim>\<open>unsigned int\<close> values are 32-bit words. Every call into the
  operating system or the event framework is written into a trace of actions, in program
  order; what such a call answers is an input of the model (the record \<open>os\<close>), so every
  theorem holds for every answer of the system. A dereference of a null pointer has no
  value in C: functions that can reach one return \<open>NullDeref\<close>.

  The calls of the endpoint happen one after another: the endpoint lock appears in the
  traces, but no two calls overlap. A callback into the user (the completion of a queued
  operation, a modem-state event) is an action of the trace; when it calls the endpoint
  again, that is the next call of a run.
\<close>

subsection \<open>Data\<close>

type_synonym word32 = "32 word"

text \<open>
  The constants the source takes from headers that are not part of the repository's
  sources (\<^verbatim>\<open><sys/ioctl.h>\<close> and \<^verbatim>\<open>gensio/sergensio.h\<close>) are parameters of the model.
\<close>

record headers =
  TIOCM_DTR :: word32
  TIOCM_RTS :: word32
  TIOCM_CD :: word32
  TIOCM_RI :: word32
  TIOCM_DSR :: word32
  TIOCM_CTS :: word32
  SERGENSIO_BREAK_ON :: word32
  SERGENSIO_BREAK_OFF :: word32
  SERGENSIO_DTR_ON :: word32
  SERGENSIO_DTR_OFF :: word32
  SERGENSIO_RTS_ON :: word32
  SERGENSIO_RTS_OFF :: word32

text \<open>The values of these constants on Linux and in gensio's header, for concrete runs.\<close>

definition linux_headers :: headers where
  "linux_headers =
     \<lparr>TIOCM_DTR = 0x002, TIOCM_RTS = 0x004, TIOCM_CD = 0x040, TIOCM_RI = 0x080,
      TIOCM_DSR = 0x100, TIOCM_CTS = 0x020,
      SERGENSIO_BREAK_ON = 1, SERGENSIO_BREAK_OFF = 2,
      SERGENSIO_DTR_ON = 1, SERGENSIO_DTR_OFF = 2,
      SERGENSIO_RTS_ON = 1, SERGENSIO_RTS_OFF = 2\<rparr>"

text \<open>
  An error number. The named ones are those the source writes; \<open>Errno n\<close> is any other
  value of \<^verbatim>\<open>errno\<close>. A C return value is an \<open>errno option\<close>, \<open>None\<close> being 0.
\<close>

datatype errno = ENOTSUP | ENOMEM | EBUSY | EINVAL | EAGAIN | Errno nat

datatype termio_op = TERMIO_OP_TERMIO | TERMIO_OP_MCTL | TERMIO_OP_BRK

datatype 'a ub = NullDeref | Ret 'a

text \<open>
  An accessor \<^verbatim>\<open>int (*getset)(struct termios *termio, int *mctl, int *val)\<close>. A pointer
  argument is \<open>None\<close> when it is \<^verbatim>\<open>NULL\<close>; the result holds the return value and what
  the three pointers point to after the call.
\<close>

record 't getset_ret =
  ret_err :: "errno option"
  ret_termio :: "'t option"
  ret_mctl :: "word32 option"
  ret_val :: word32

type_synonym 't getset = "'t option \<Rightarrow> word32 option \<Rightarrow> word32 \<Rightarrow> 't getset_ret ub"

text \<open>
  \<^verbatim>\<open>struct termio_op_q\<close>. The completion \<^verbatim>\<open>done\<close> and its \<^verbatim>\<open>cb_data\<close> are one opaque
  value of type \<open>'cb\<close>; \<^verbatim>\<open>getset\<close> may be \<^verbatim>\<open>NULL\<close> (it is for BREAK); the \<^verbatim>\<open>next\<close>
  pointers are the list that holds the entries.
\<close>

record ('t, 'cb) termio_op_q =
  qe_op :: termio_op
  qe_getset :: "'t getset option"
  qe_done :: 'cb

text \<open>\<^verbatim>\<open>struct sterm_data\<close>, without the handles of the framework.\<close>

record ('t, 'cb) sterm_data =
  timer_stopped :: bool
  is_open :: bool
  close_timeouts_left :: word32
  fd :: int
  write_only :: bool
  default_termios :: 't
  deferred_op_pending :: bool
  termio_q :: "('t, 'cb) termio_op_q list"
  break_set :: bool
  last_modemstate :: word32
  modemstate_mask :: word32
  handling_modemstate :: bool
  sent_first_modemstate :: bool

text \<open>
  What a call does to the outside, in program order: the endpoint lock, the allocator,
  the runner and the timer of the framework, the tty calls, the UUCP lock, and the
  callbacks into the user (a completion with its error and value, a modem-state event
  with its payload).
\<close>

datatype ('t, 'cb) action =
    Lock | Unlock
  | Zalloc_qe | Free_qe
  | Run_deferred_op
  | Tcgetattr | Tcsetattr 't
  | Tiocmget | Tiocmset word32
  | Tiocsbrk | Tioccbrk
  | Tiocoutq
  | Done_cb 'cb "errno option" word32
  | Gensio_cb_modemstate word32
  | Start_timer nat nat
  | Stop_timer
  | Stop_timer_with_done
  | Uucp_mk_lock | Uucp_rm_lock
  | Open_dev bool
  | Close_fd int

text \<open>
  The answers of the system to the calls of one invocation. \<open>zalloc_r\<close>: the allocation
  succeeds; an \<open>errno + 'a\<close> is a failed call with its \<^verbatim>\<open>errno\<close> or the value read; an
  \<open>errno option\<close> is the failure of a call that reads nothing. The deferred runner reads
  once for every queue entry, so its answers are indexed by the position of the entry.
\<close>

record 't os =
  zalloc_r :: bool
  tcgetattr_r :: "errno + 't"
  tcsetattr_r :: "errno option"
  tiocmget_r :: "errno + word32"
  tiocmset_r :: "errno option"
  tiocbrk_r :: "errno option"
  tiocoutq_r :: "errno + word32"
  q_tcgetattr_r :: "nat \<Rightarrow> errno + 't"
  q_tiocmget_r :: "nat \<Rightarrow> errno + word32"
  stop_timer_with_done_r :: int
  uucp_mk_lock_r :: int
  uucp_mk_lock_errno :: errno
  open_r :: "errno + int"

subsection \<open>The modem-control accessors\<close>

text \<open>
  \<^verbatim>\<open>termios_get_set_dtr\<close> and \<^verbatim>\<open>termios_get_set_rts\<close>. Both read and write through
  \<^verbatim>\<open>mctl\<close> in every branch but the one that rejects the value.
\<close>

definition termios_get_set_dtr :: "headers \<Rightarrow> 't getset" where
  "termios_get_set_dtr h termio mctl ival =
     (if ival \<noteq> 0 then
        (if ival = SERGENSIO_DTR_ON h then
           (case mctl of None \<Rightarrow> NullDeref
            | Some m \<Rightarrow> Ret \<lparr>ret_err = None, ret_termio = termio,
                ret_mctl = Some (m OR TIOCM_DTR h), ret_val = ival\<rparr>)
         else if ival = SERGENSIO_DTR_OFF h then
           (case mctl of None \<Rightarrow> NullDeref
            | Some m \<Rightarrow> Ret \<lparr>ret_err = None, ret_termio = termio,
                ret_mctl = Some (m AND TIOCM_DTR h), ret_val = ival\<rparr>)
         else Ret \<lparr>ret_err = Some EINVAL, ret_termio = termio, ret_mctl = mctl,
                ret_val = ival\<rparr>)
      else
        (case mctl of None \<Rightarrow> NullDeref
         | Some m \<Rightarrow> Ret \<lparr>ret_err = None, ret_termio = termio, ret_mctl = mctl,
             ret_val = (if m AND TIOCM_DTR h \<noteq> 0 then SERGENSIO_DTR_ON h
                        else SERGENSIO_DTR_OFF h)\<rparr>))"

definition termios_get_set_rts :: "headers \<Rightarrow> 't getset" where
  "termios_get_set_rts h termio mctl ival =
     (if ival \<noteq> 0 then
        (if ival = SERGENSIO_RTS_ON h then
           (case mctl of None \<Rightarrow> NullDeref
            | Some m \<Rightarrow> Ret \<lparr>ret_err = None, ret_termio = termio,
                ret_mctl = Some (m OR TIOCM_RTS h), ret_val = ival\<rparr>)
         else if ival = SERGENSIO_RTS_OFF h then
           (case mctl of None \<Rightarrow> NullDeref
            | Some m \<Rightarrow> Ret \<lparr>ret_err = None, ret_termio = termio,
                ret_mctl = Some (m AND TIOCM_RTS h), ret_val = ival\<rparr>)
         else Ret \<lparr>ret_err = Some EINVAL, ret_termio = termio, ret_mctl = mctl,
                ret_val = ival\<rparr>)
      else
        (case mctl of None \<Rightarrow> NullDeref
         | Some m \<Rightarrow> Ret \<lparr>ret_err = None, ret_termio = termio, ret_mctl = mctl,
             ret_val = (if m AND TIOCM_RTS h \<noteq> 0 then SERGENSIO_RTS_ON h
                        else SERGENSIO_RTS_OFF h)\<rparr>))"

subsection \<open>The operation queue\<close>

text \<open>A call through a function pointer; the pointer may be \<^verbatim>\<open>NULL\<close>.\<close>

definition call_getset ::
  "'t getset option \<Rightarrow> 't option \<Rightarrow> word32 option \<Rightarrow> word32 \<Rightarrow> 't getset_ret ub" where
  "call_getset g termio mctl val =
     (case g of None \<Rightarrow> NullDeref | Some f \<Rightarrow> f termio mctl val)"

text \<open>The local variable a pointer was taken of, after the call.\<close>

definition pointee :: "'a \<Rightarrow> 'a option \<Rightarrow> 'a" where
  "pointee old new = (case new of None \<Rightarrow> old | Some x \<Rightarrow> x)"

definition sterm_start_deferred_op ::
  "('t, 'cb) sterm_data \<Rightarrow> ('t, 'cb) sterm_data \<times> ('t, 'cb) action list" where
  "sterm_start_deferred_op sdata =
     (if \<not> deferred_op_pending sdata
      then (sdata\<lparr>deferred_op_pending := True\<rparr>, [Run_deferred_op])
      else (sdata, []))"

text \<open>
  The end of \<^verbatim>\<open>termios_set_get\<close> from the label \<^verbatim>\<open>out_unlock\<close>: an entry that was
  allocated is freed when the call failed.
\<close>

definition out_unlock ::
  "('t, 'cb) sterm_data \<Rightarrow> errno option \<Rightarrow> ('t, 'cb) termio_op_q option \<Rightarrow>
   ('t, 'cb) action list \<Rightarrow> (errno option \<times> ('t, 'cb) sterm_data \<times> ('t, 'cb) action list) ub" where
  "out_unlock sdata err qe tr =
     Ret (err, sdata, tr @ (if err \<noteq> None \<and> qe \<noteq> None then [Free_qe] else []) @ [Unlock])"

text \<open>
  The part of \<^verbatim>\<open>termios_set_get\<close> after a set that worked (or a get): the entry, if there
  is one, goes to the end of the queue, and the runner is started when the queue was empty.
\<close>

definition enqueue_unlock ::
  "('t, 'cb) sterm_data \<Rightarrow> ('t, 'cb) termio_op_q option \<Rightarrow>
   ('t, 'cb) action list \<Rightarrow> (errno option \<times> ('t, 'cb) sterm_data \<times> ('t, 'cb) action list) ub" where
  "enqueue_unlock sdata qe tr =
     (case qe of
        None \<Rightarrow> out_unlock sdata None qe tr
      | Some q \<Rightarrow>
          if termio_q sdata = [] then
            (case sterm_start_deferred_op (sdata\<lparr>termio_q := [q]\<rparr>) of
               (sdata', tr') \<Rightarrow> out_unlock sdata' None qe (tr @ tr'))
          else out_unlock (sdata\<lparr>termio_q := termio_q sdata @ [q]\<rparr>) None qe tr)"

text \<open>
  \<^verbatim>\<open>termios_set_get\<close>: the submit of an operation. \<open>val \<noteq> 0\<close> is a set, done at once;
  \<open>done_cb\<close> is the completion, \<open>None\<close> for \<^verbatim>\<open>NULL\<close>. The result is the return value,
  the endpoint after the call and the actions of the call. The MODEM_CTL set calls the
  accessor through the queue entry, the TERMIO set through the argument. The source's last
  \<^verbatim>\<open>else\<close> (an operation that is none of the three) has no value of the enum to reach it.
\<close>

definition termios_set_get ::
  "headers \<Rightarrow> ('t, 'cb) sterm_data \<Rightarrow> word32 \<Rightarrow> termio_op \<Rightarrow> 't getset option \<Rightarrow>
   'cb option \<Rightarrow> 't os \<Rightarrow>
   (errno option \<times> ('t, 'cb) sterm_data \<times> ('t, 'cb) action list) ub" where
  "termios_set_get h sdata val op getset done_cb os =
     (if write_only sdata then Ret (Some ENOTSUP, sdata, [])
      else if done_cb \<noteq> None \<and> \<not> zalloc_r os then Ret (Some ENOMEM, sdata, [Zalloc_qe])
      else
        let qe = map_option
                   (\<lambda>d. \<lparr>qe_op = op, qe_getset = getset, qe_done = d\<rparr>) done_cb;
            tr = (if done_cb \<noteq> None then [Zalloc_qe] else []) @ [Lock]
        in
        if \<not> is_open sdata then out_unlock sdata (Some EBUSY) qe tr
        else if val \<noteq> 0 then
          (case op of
             TERMIO_OP_TERMIO \<Rightarrow>
               (case tcgetattr_r os of
                  Inl e \<Rightarrow> out_unlock sdata (Some e) qe (tr @ [Tcgetattr])
                | Inr termio \<Rightarrow>
                    (case call_getset getset (Some termio) None val of
                       NullDeref \<Rightarrow> NullDeref
                     | Ret r \<Rightarrow>
                         if ret_err r \<noteq> None
                         then out_unlock sdata (ret_err r) qe (tr @ [Tcgetattr])
                         else enqueue_unlock sdata qe
                                (tr @ [Tcgetattr, Tcsetattr (pointee termio (ret_termio r))])))
           | TERMIO_OP_MCTL \<Rightarrow>
               (case tiocmget_r os of
                  Inl e \<Rightarrow> out_unlock sdata (Some e) qe (tr @ [Tiocmget])
                | Inr mctl \<Rightarrow>
                    (case qe of
                       None \<Rightarrow> NullDeref
                     | Some q \<Rightarrow>
                         (case call_getset (qe_getset q) None (Some mctl) val of
                            NullDeref \<Rightarrow> NullDeref
                          | Ret r \<Rightarrow>
                              if ret_err r \<noteq> None
                              then out_unlock sdata (ret_err r) qe (tr @ [Tiocmget])
                              else
                                (case tiocmset_r os of
                                   Some e \<Rightarrow>
                                     out_unlock sdata (Some e) qe
                                       (tr @ [Tiocmget, Tiocmset (pointee mctl (ret_mctl r))])
                                 | None \<Rightarrow>
                                     enqueue_unlock sdata qe
                                       (tr @ [Tiocmget, Tiocmset (pointee mctl (ret_mctl r))])))))
           | TERMIO_OP_BRK \<Rightarrow>
               if val = SERGENSIO_BREAK_ON h then
                 (case tiocbrk_r os of
                    Some e \<Rightarrow> out_unlock sdata (Some e) qe (tr @ [Tiocsbrk])
                  | None \<Rightarrow> enqueue_unlock (sdata\<lparr>break_set := True\<rparr>) qe (tr @ [Tiocsbrk]))
               else if val = SERGENSIO_BREAK_OFF h then
                 (case tiocbrk_r os of
                    Some e \<Rightarrow> out_unlock sdata (Some e) qe (tr @ [Tioccbrk])
                  | None \<Rightarrow> enqueue_unlock (sdata\<lparr>break_set := False\<rparr>) qe (tr @ [Tioccbrk]))
               else out_unlock sdata (Some EINVAL) qe tr)
        else enqueue_unlock sdata qe tr)"

text \<open>
  The entry points for BREAK, DTR and RTS: \<^verbatim>\<open>sterm_sbreak\<close> passes no accessor,
  \<^verbatim>\<open>sterm_dtr\<close> and \<^verbatim>\<open>sterm_rts\<close> pass theirs with the operation MODEM_CTL.
\<close>

definition sterm_sbreak ::
  "headers \<Rightarrow> ('t, 'cb) sterm_data \<Rightarrow> word32 \<Rightarrow> 'cb option \<Rightarrow> 't os \<Rightarrow>
   (errno option \<times> ('t, 'cb) sterm_data \<times> ('t, 'cb) action list) ub" where
  "sterm_sbreak h sdata breakv done_cb os =
     termios_set_get h sdata breakv TERMIO_OP_BRK None done_cb os"

definition sterm_dtr ::
  "headers \<Rightarrow> ('t, 'cb) sterm_data \<Rightarrow> word32 \<Rightarrow> 'cb option \<Rightarrow> 't os \<Rightarrow>
   (errno option \<times> ('t, 'cb) sterm_data \<times> ('t, 'cb) action list) ub" where
  "sterm_dtr h sdata dtr done_cb os =
     termios_set_get h sdata dtr TERMIO_OP_MCTL (Some (termios_get_set_dtr h)) done_cb os"

definition sterm_rts ::
  "headers \<Rightarrow> ('t, 'cb) sterm_data \<Rightarrow> word32 \<Rightarrow> 'cb option \<Rightarrow> 't os \<Rightarrow>
   (errno option \<times> ('t, 'cb) sterm_data \<times> ('t, 'cb) action list) ub" where
  "sterm_rts h sdata rts done_cb os =
     termios_set_get h sdata rts TERMIO_OP_MCTL (Some (termios_get_set_rts h)) done_cb os"

text \<open>
  The read-back of one queue entry in \<^verbatim>\<open>termios_process\<close>: the error and the value
  handed to the completion, and the tty call made. \<open>i\<close> is the position of the entry in
  the run.
\<close>

definition qe_readback ::
  "headers \<Rightarrow> 't os \<Rightarrow> nat \<Rightarrow> ('t, 'cb) sterm_data \<Rightarrow> ('t, 'cb) termio_op_q \<Rightarrow>
   (errno option \<times> word32 \<times> ('t, 'cb) action list) ub" where
  "qe_readback h os i sdata qe =
     (case qe_op qe of
        TERMIO_OP_TERMIO \<Rightarrow>
          (case q_tcgetattr_r os i of
             Inl e \<Rightarrow> Ret (Some e, 0, [Tcgetattr])
           | Inr termio \<Rightarrow>
               (case call_getset (qe_getset qe) (Some termio) None 0 of
                  NullDeref \<Rightarrow> NullDeref
                | Ret r \<Rightarrow> Ret (ret_err r, ret_val r, [Tcgetattr])))
      | TERMIO_OP_MCTL \<Rightarrow>
          (case q_tiocmget_r os i of
             Inl e \<Rightarrow> Ret (Some e, 0, [Tiocmget])
           | Inr mctl \<Rightarrow>
               (case call_getset (qe_getset qe) None (Some mctl) 0 of
                  NullDeref \<Rightarrow> NullDeref
                | Ret r \<Rightarrow> Ret (ret_err r, ret_val r, [Tiocmget])))
      | TERMIO_OP_BRK \<Rightarrow>
          Ret (None,
               if break_set sdata then SERGENSIO_BREAK_ON h else SERGENSIO_BREAK_OFF h,
               []))"

text \<open>
  \<^verbatim>\<open>termios_process\<close>: the loop that empties the queue from its head. Every entry is
  unlinked, read back, and its completion is called with the lock released. The completions
  are calls into the user that do not come back into the endpoint here: what a completion
  that submits again would add is a later call of the model.
\<close>

function termios_process ::
  "headers \<Rightarrow> 't os \<Rightarrow> nat \<Rightarrow> ('t, 'cb) sterm_data \<Rightarrow>
   (('t, 'cb) sterm_data \<times> ('t, 'cb) action list) ub" where
  "termios_process h os i sdata =
     (case termio_q sdata of
        [] \<Rightarrow> Ret (sdata, [])
      | qe # rest \<Rightarrow>
          (case qe_readback h os i (sdata\<lparr>termio_q := rest\<rparr>) qe of
             NullDeref \<Rightarrow> NullDeref
           | Ret (err, val, rd) \<Rightarrow>
               (case termios_process h os (Suc i) (sdata\<lparr>termio_q := rest\<rparr>) of
                  NullDeref \<Rightarrow> NullDeref
                | Ret (sdata', tr) \<Rightarrow>
                    Ret (sdata', rd @ [Unlock, Done_cb (qe_done qe) err val, Free_qe, Lock] @ tr))))"
  by pat_completeness auto
termination
  by (relation "measure (\<lambda>(h, os, i, sdata). length (termio_q sdata))") auto

declare termios_process.simps [simp del]

text \<open>A run of \<^verbatim>\<open>termios_process\<close> that returns leaves the queue empty.\<close>

lemma termios_process_empties:
  "termios_process h os i sdata = Ret (sdata', tr) \<Longrightarrow> termio_q sdata' = []"
proof (induction h os i sdata arbitrary: sdata' tr rule: termios_process.induct)
  case (1 h os i sdata)
  show ?case
  proof (cases "termio_q sdata")
    case Nil
    with "1.prems" show ?thesis
      by (simp add: termios_process.simps [of h os i sdata])
  next
    case (Cons qe rest)
    with "1.prems" "1.IH" show ?thesis
      by (auto simp: termios_process.simps [of h os i sdata] split: ub.splits prod.splits)
  qed
qed

text \<open>
  \<^verbatim>\<open>sterm_deferred_op\<close>, the runner: under the lock it runs \<^verbatim>\<open>termios_process\<close> and
  starts again (\<^verbatim>\<open>goto restart\<close>) while the queue holds something; then it clears
  \<open>deferred_op_pending\<close>.
\<close>

function sterm_deferred_op_restart ::
  "headers \<Rightarrow> 't os \<Rightarrow> ('t, 'cb) sterm_data \<Rightarrow>
   (('t, 'cb) sterm_data \<times> ('t, 'cb) action list) ub" where
  "sterm_deferred_op_restart h os sdata =
     (case termios_process h os 0 sdata of
        NullDeref \<Rightarrow> NullDeref
      | Ret (sdata1, tr) \<Rightarrow>
          if termio_q sdata1 \<noteq> [] then
            (case sterm_deferred_op_restart h os sdata1 of
               NullDeref \<Rightarrow> NullDeref
             | Ret (sdata2, tr2) \<Rightarrow> Ret (sdata2, tr @ tr2))
          else Ret (sdata1\<lparr>deferred_op_pending := False\<rparr>, tr @ [Unlock]))"
  by pat_completeness auto
termination
  by (relation "{}") (auto dest: termios_process_empties)

declare sterm_deferred_op_restart.simps [simp del]

definition sterm_deferred_op ::
  "headers \<Rightarrow> 't os \<Rightarrow> ('t, 'cb) sterm_data \<Rightarrow>
   (('t, 'cb) sterm_data \<times> ('t, 'cb) action list) ub" where
  "sterm_deferred_op h os sdata =
     (case sterm_deferred_op_restart h os sdata of
        NullDeref \<Rightarrow> NullDeref
      | Ret (sdata', tr) \<Rightarrow> Ret (sdata', Lock # tr))"

subsection \<open>The modem-state poller\<close>

text \<open>The levels of CD, RI, DSR and CTS read by \<^verbatim>\<open>TIOCMGET\<close>, as the top nibble.\<close>

definition modemstate_levels :: "headers \<Rightarrow> word32 \<Rightarrow> word32" where
  "modemstate_levels h val =
     (if val AND TIOCM_CD h \<noteq> 0 then 0x80 else 0) OR
     (if val AND TIOCM_RI h \<noteq> 0 then 0x40 else 0) OR
     (if val AND TIOCM_DSR h \<noteq> 0 then 0x20 else 0) OR
     (if val AND TIOCM_CTS h \<noteq> 0 then 0x10 else 0)"

text \<open>
  \<^verbatim>\<open>termios_timeout\<close>, the tick of the poller. A tick whose \<^verbatim>\<open>TIOCMGET\<close> fails returns
  after it has set \<open>handling_modemstate\<close>.
\<close>

definition termios_timeout ::
  "headers \<Rightarrow> 't os \<Rightarrow> ('t, 'cb) sterm_data \<Rightarrow>
   ('t, 'cb) sterm_data \<times> ('t, 'cb) action list" where
  "termios_timeout h os sdata =
     (if handling_modemstate sdata then (sdata, [Lock, Unlock])
      else
        let sdata1 = sdata\<lparr>handling_modemstate := True\<rparr> in
        case tiocmget_r os of
          Inl e \<Rightarrow> (sdata1, [Lock, Unlock, Tiocmget])
        | Inr val \<Rightarrow>
            let modemstate0 = modemstate_levels h val;
                modemstate1 =
                  modemstate0 OR drop_bit 4 (modemstate0 XOR last_modemstate sdata1);
                sdata2 = sdata1\<lparr>last_modemstate := modemstate1 AND modemstate_mask sdata1\<rparr>;
                modemstate = modemstate1 AND last_modemstate sdata2;
                force_send = (\<not> sent_first_modemstate sdata2);
                sdata3 = sdata2\<lparr>sent_first_modemstate := True\<rparr>
            in
            (sdata3\<lparr>handling_modemstate := False\<rparr>,
             [Lock, Unlock, Tiocmget, Lock, Unlock] @
             (if force_send \<or> modemstate AND 0xf \<noteq> 0
              then [Gensio_cb_modemstate modemstate] else []) @
             (if modemstate_mask sdata3 \<noteq> 0 then [Start_timer 1 0] else []) @
             [Lock, Unlock]))"

text \<open>\<^verbatim>\<open>sterm_modemstate\<close>, the subscribe: it always returns 0.\<close>

definition sterm_modemstate ::
  "('t, 'cb) sterm_data \<Rightarrow> word32 \<Rightarrow> ('t, 'cb) sterm_data \<times> ('t, 'cb) action list" where
  "sterm_modemstate sdata val =
     (let sdata1 = sdata\<lparr>modemstate_mask := val\<rparr> in
      (sdata1,
       [Lock, Unlock] @
       (if modemstate_mask sdata1 \<noteq> 0 then [Start_timer 0 1] else [Stop_timer])))"

subsection \<open>Open and close\<close>

definition sterm_timer_stopped :: "('t, 'cb) sterm_data \<Rightarrow> ('t, 'cb) sterm_data" where
  "sterm_timer_stopped sdata = sdata\<lparr>timer_stopped := True\<rparr>"

datatype gensio_ll_close_state = GENSIO_LL_CLOSE_STATE_START | GENSIO_LL_CLOSE_STATE_DONE

text \<open>
  \<^verbatim>\<open>sterm_check_close_drain\<close>. The result is the return value, the endpoint, the actions
  and \<^verbatim>\<open>*next_timeout\<close> as seconds and microseconds when the call wrote it.
\<close>

definition sterm_check_close_drain ::
  "'t os \<Rightarrow> ('t, 'cb) sterm_data \<Rightarrow> gensio_ll_close_state \<Rightarrow>
   errno option \<times> ('t, 'cb) sterm_data \<times> ('t, 'cb) action list \<times> (nat \<times> nat) option" where
  "sterm_check_close_drain os sdata state =
     (let sdata1 =
            (if state = GENSIO_LL_CLOSE_STATE_START then
               (let s = sdata\<lparr>is_open := False, close_timeouts_left := 200\<rparr>
                in if stop_timer_with_done_r os \<noteq> 0 then s\<lparr>timer_stopped := True\<rparr> else s)
             else sdata);
          tr = Lock # (if state = GENSIO_LL_CLOSE_STATE_START then [Stop_timer_with_done] else [])
      in
      if state \<noteq> GENSIO_LL_CLOSE_STATE_DONE then (None, sdata1, tr @ [Unlock], None)
      else
        let sdata2 = sdata1\<lparr>is_open := False\<rparr> in
        if termio_q sdata2 \<noteq> [] then (Some EAGAIN, sdata2, tr @ [Unlock], Some (0, 10000))
        else if \<not> timer_stopped sdata2
        then (Some EAGAIN, sdata2, tr @ [Unlock], Some (0, 10000))
        else
          (case tiocoutq_r os of
             Inl e \<Rightarrow> (None, sdata2, tr @ [Tiocoutq, Uucp_rm_lock, Unlock], None)
           | Inr count \<Rightarrow>
               if count = 0 then (None, sdata2, tr @ [Tiocoutq, Uucp_rm_lock, Unlock], None)
               else
                 let sdata3 = sdata2\<lparr>close_timeouts_left := close_timeouts_left sdata2 - 1\<rparr>
                 in
                 if close_timeouts_left sdata3 = 0
                 then (None, sdata3, tr @ [Tiocoutq, Uucp_rm_lock, Unlock], None)
                 else (Some EAGAIN, sdata3, tr @ [Tiocoutq, Unlock], Some (0, 10000))))"

text \<open>
  The end of \<^verbatim>\<open>sterm_sub_open\<close> from the label \<^verbatim>\<open>out\<close>: a descriptor the endpoint
  still holds is closed.
\<close>

definition sub_open_out ::
  "('t, 'cb) sterm_data \<Rightarrow> errno \<Rightarrow> ('t, 'cb) action list \<Rightarrow>
   errno option \<times> ('t, 'cb) sterm_data \<times> ('t, 'cb) action list" where
  "sub_open_out sdata err tr =
     (if fd sdata \<noteq> -1 then (Some err, sdata\<lparr>fd := -1\<rparr>, tr @ [Close_fd (fd sdata)])
      else (Some err, sdata, tr))"

text \<open>
  \<^verbatim>\<open>sterm_sub_open\<close>. \<open>Open_dev w\<close> is the \<^verbatim>\<open>open\<close> of the device, write-only when
  \<open>w\<close>. The answer of \<^verbatim>\<open>ioctl(fd, TIOCCBRK)\<close> is not read.
\<close>

definition sterm_sub_open ::
  "'t os \<Rightarrow> ('t, 'cb) sterm_data \<Rightarrow>
   errno option \<times> ('t, 'cb) sterm_data \<times> ('t, 'cb) action list" where
  "sterm_sub_open os sdata =
     (if uucp_mk_lock_r os > 0 then sub_open_out sdata EBUSY [Uucp_mk_lock]
      else if uucp_mk_lock_r os < 0 then sub_open_out sdata (uucp_mk_lock_errno os) [Uucp_mk_lock]
      else
        let sdata1 = sdata\<lparr>timer_stopped := False\<rparr>;
            tr1 = [Uucp_mk_lock, Open_dev (write_only sdata1)]
        in
        case open_r os of
          Inl e \<Rightarrow> sub_open_out (sdata1\<lparr>fd := -1\<rparr>) e (tr1 @ [Uucp_rm_lock])
        | Inr new_fd \<Rightarrow>
            let sdata2 = sdata1\<lparr>fd := new_fd\<rparr> in
            (case (if write_only sdata2 then None else tcsetattr_r os) of
               Some e \<Rightarrow>
                 sub_open_out sdata2 e
                   (tr1 @ [Tcsetattr (default_termios sdata2), Uucp_rm_lock])
             | None \<Rightarrow>
                 let tr2 = tr1 @
                       (if \<not> write_only sdata2 then [Tcsetattr (default_termios sdata2)]
                        else []) @
                       [Tioccbrk, Lock, Unlock];
                     sdata3 = sdata2\<lparr>is_open := True, sent_first_modemstate := False\<rparr>
                 in
                 if \<not> write_only sdata3 then
                   (case sterm_modemstate sdata3 255 of
                      (sdata4, tr4) \<Rightarrow> (None, sdata4, tr2 @ tr4))
                 else (None, sdata3, tr2)))"

subsection \<open>Runs of the endpoint\<close>

text \<open>
  The entry points of the endpoint, each with the answers of the system for that call, and
  the run of a list of them from a state: the state after the last call and all actions in
  order. A run that reaches a null dereference has no value.
\<close>

datatype ('t, 'cb) call =
    Submit word32 termio_op "'t getset option" "'cb option" "'t os"
  | Deferred_op "'t os"
  | Timeout "'t os"
  | Modemstate word32
  | Timer_stopped
  | Check_close_drain gensio_ll_close_state "'t os"
  | Sub_open "'t os"

fun api ::
  "headers \<Rightarrow> ('t, 'cb) sterm_data \<Rightarrow> ('t, 'cb) call \<Rightarrow>
   (('t, 'cb) sterm_data \<times> ('t, 'cb) action list) ub" where
  "api h sdata (Submit val op getset done_cb os) =
     (case termios_set_get h sdata val op getset done_cb os of
        NullDeref \<Rightarrow> NullDeref
      | Ret (err, sdata', tr) \<Rightarrow> Ret (sdata', tr))"
| "api h sdata (Deferred_op os) = sterm_deferred_op h os sdata"
| "api h sdata (Timeout os) = Ret (termios_timeout h os sdata)"
| "api h sdata (Modemstate val) = Ret (sterm_modemstate sdata val)"
| "api h sdata Timer_stopped = Ret (sterm_timer_stopped sdata, [])"
| "api h sdata (Check_close_drain state os) =
     (case sterm_check_close_drain os sdata state of
        (err, sdata', tr, next_timeout) \<Rightarrow> Ret (sdata', tr))"
| "api h sdata (Sub_open os) =
     (case sterm_sub_open os sdata of (err, sdata', tr) \<Rightarrow> Ret (sdata', tr))"

fun run ::
  "headers \<Rightarrow> ('t, 'cb) sterm_data \<Rightarrow> ('t, 'cb) call list \<Rightarrow>
   (('t, 'cb) sterm_data \<times> ('t, 'cb) action list) ub" where
  "run h sdata [] = Ret (sdata, [])"
| "run h sdata (c # cs) =
     (case api h sdata c of
        NullDeref \<Rightarrow> NullDeref
      | Ret (sdata1, tr1) \<Rightarrow>
          (case run h sdata1 cs of
             NullDeref \<Rightarrow> NullDeref
           | Ret (sdata2, tr2) \<Rightarrow> Ret (sdata2, tr1 @ tr2)))"

subsection \<open>Observations and concrete endpoints\<close>

text \<open>The payloads of the modem-state events of a trace, in order.\<close>

definition event_payload :: "('t, 'cb) action \<Rightarrow> word32 list" where
  "event_payload a = (case a of Gensio_cb_modemstate v \<Rightarrow> [v] | _ \<Rightarrow> [])"

definition modemstate_events :: "('t, 'cb) action list \<Rightarrow> word32 list" where
  "modemstate_events tr = concat (map event_payload tr)"

text \<open>The completions called in a trace, in order: callback, error and value.\<close>

definition done_payload :: "('t, 'cb) action \<Rightarrow> ('cb \<times> errno option \<times> word32) list" where
  "done_payload a = (case a of Done_cb cb err val \<Rightarrow> [(cb, err, val)] | _ \<Rightarrow> [])"

definition completions :: "('t, 'cb) action list \<Rightarrow> ('cb \<times> errno option \<times> word32) list" where
  "completions tr = concat (map done_payload tr)"

text \<open>
  The word a tick stores and reports, in the words of the specification: the edge bits are
  the differences of the top nibbles, shifted into the bottom nibble, and the mask is
  applied to levels and edge bits alike.
\<close>

definition new_state :: "headers \<Rightarrow> word32 \<Rightarrow> word32 \<Rightarrow> word32 \<Rightarrow> word32" where
  "new_state h lastv maskv val =
     (let cur = modemstate_levels h val;
          edges = drop_bit 4 (cur XOR lastv)
      in (cur OR edges) AND maskv)"

text \<open>
  The endpoint \<^verbatim>\<open>termios_gensio_alloc\<close> builds when it succeeds: the structure comes
  zeroed from \<^verbatim>\<open>zalloc\<close> and \<open>fd\<close> is set to \<open>-1\<close>. \<open>wronly\<close> says that \<^verbatim>\<open>WRONLY\<close> is
  among the parameters; \<open>dt\<close> is the default termios the function computes.
\<close>

definition termios_gensio_alloc :: "bool \<Rightarrow> 't \<Rightarrow> ('t, 'cb) sterm_data" where
  "termios_gensio_alloc wronly dt =
     \<lparr>timer_stopped = False, is_open = False, close_timeouts_left = 0, fd = -1,
      write_only = wronly, default_termios = dt, deferred_op_pending = False,
      termio_q = [], break_set = False, last_modemstate = 0, modemstate_mask = 0,
      handling_modemstate = False, sent_first_modemstate = False\<rparr>"

text \<open>
  A system in which every call succeeds: the tty has the attributes \<open>t\<close>, all modem lines
  are low and the output queue is empty.
\<close>

definition os_ok :: "'t \<Rightarrow> 't os" where
  "os_ok t =
     \<lparr>zalloc_r = True, tcgetattr_r = Inr t, tcsetattr_r = None, tiocmget_r = Inr 0,
      tiocmset_r = None, tiocbrk_r = None, tiocoutq_r = Inr 0,
      q_tcgetattr_r = (\<lambda>i. Inr t), q_tiocmget_r = (\<lambda>i. Inr 0),
      stop_timer_with_done_r = 0, uucp_mk_lock_r = 0, uucp_mk_lock_errno = Errno 0,
      open_r = Inr 3\<rparr>"

text \<open>An open endpoint that polls with the mask \<open>m\<close> and has sent its first report.\<close>

definition polling :: "word32 \<Rightarrow> (unit, nat) sterm_data" where
  "polling m = (termios_gensio_alloc False ())
       \<lparr>is_open := True, modemstate_mask := m, sent_first_modemstate := True\<rparr>"

section \<open>The modem-control accessors: DTR and RTS off\<close>

text \<open>
  What the two accessors do on a set: ON sets the line's bit, OFF keeps of the whole word
  only the line's bit (\<^verbatim>\<open>*mctl &= TIOCM_DTR\<close>), any other value is rejected.
\<close>

lemma termios_get_set_dtr_off:
  "SERGENSIO_DTR_OFF h \<noteq> 0 \<Longrightarrow> SERGENSIO_DTR_OFF h \<noteq> SERGENSIO_DTR_ON h \<Longrightarrow>
   termios_get_set_dtr h termio (Some m) (SERGENSIO_DTR_OFF h) =
     Ret \<lparr>ret_err = None, ret_termio = termio, ret_mctl = Some (m AND TIOCM_DTR h),
          ret_val = SERGENSIO_DTR_OFF h\<rparr>"
  by (simp add: termios_get_set_dtr_def)

lemma termios_get_set_rts_off:
  "SERGENSIO_RTS_OFF h \<noteq> 0 \<Longrightarrow> SERGENSIO_RTS_OFF h \<noteq> SERGENSIO_RTS_ON h \<Longrightarrow>
   termios_get_set_rts h termio (Some m) (SERGENSIO_RTS_OFF h) =
     Ret \<lparr>ret_err = None, ret_termio = termio, ret_mctl = Some (m AND TIOCM_RTS h),
          ret_val = SERGENSIO_RTS_OFF h\<rparr>"
  by (simp add: termios_get_set_rts_def)

text \<open>
  C1. The claim: a DTR (an RTS) set with value OFF clears exactly the bit \<^verbatim>\<open>TIOCM_DTR\<close>
  (\<^verbatim>\<open>TIOCM_RTS\<close>) of the modem-control word and leaves every other bit as it was. The
  code does not: with DTR and RTS both high (the word 6 on Linux), DTR off leaves DTR
  high and clears RTS, and RTS off leaves RTS high and clears DTR, where the claim asks
  for 4 and for 2. The word goes to the line as the accessor left it (\<^verbatim>\<open>TIOCMSET\<close>).
\<close>

theorem mctl_off_keeps_only_own_bit:
  "termios_get_set_dtr linux_headers (None :: unit option) (Some 6)
       (SERGENSIO_DTR_OFF linux_headers) =
     Ret \<lparr>ret_err = None, ret_termio = None, ret_mctl = Some 2, ret_val = 2\<rparr> \<and>
   termios_get_set_rts linux_headers (None :: unit option) (Some 6)
       (SERGENSIO_RTS_OFF linux_headers) =
     Ret \<lparr>ret_err = None, ret_termio = None, ret_mctl = Some 4, ret_val = 2\<rparr> \<and>
   (6 :: word32) AND NOT (TIOCM_DTR linux_headers) = 4 \<and>
   (6 :: word32) AND NOT (TIOCM_RTS linux_headers) = 2 \<and>
   map_ub (snd \<circ> snd)
     (sterm_dtr linux_headers (polling 0xFF) (SERGENSIO_DTR_OFF linux_headers) (Some 7)
        ((os_ok ())\<lparr>tiocmget_r := Inr 6\<rparr>)) =
     Ret [Zalloc_qe, Lock, Tiocmget, Tiocmset 2, Run_deferred_op, Unlock] \<and>
   map_ub (snd \<circ> snd)
     (sterm_rts linux_headers (polling 0xFF) (SERGENSIO_RTS_OFF linux_headers) (Some 7)
        ((os_ok ())\<lparr>tiocmget_r := Inr 6\<rparr>)) =
     Ret [Zalloc_qe, Lock, Tiocmget, Tiocmset 4, Run_deferred_op, Unlock]"
  by (simp add: termios_get_set_dtr_def termios_get_set_rts_def linux_headers_def
      sterm_dtr_def sterm_rts_def termios_set_get_def call_getset_def pointee_def
      out_unlock_def enqueue_unlock_def sterm_start_deferred_op_def Let_def
      polling_def termios_gensio_alloc_def os_ok_def)

section \<open>The tick of the poller\<close>

lemma termios_timeout_sampled:
  assumes "\<not> handling_modemstate s" "tiocmget_r os = Inr v"
  shows "termios_timeout h os s =
    (s\<lparr>last_modemstate := new_state h (last_modemstate s) (modemstate_mask s) v,
       sent_first_modemstate := True\<rparr>,
     [Lock, Unlock, Tiocmget, Lock, Unlock] @
     (if \<not> sent_first_modemstate s \<or>
         new_state h (last_modemstate s) (modemstate_mask s) v AND 0xf \<noteq> 0
      then [Gensio_cb_modemstate (new_state h (last_modemstate s) (modemstate_mask s) v)]
      else []) @
     (if modemstate_mask s \<noteq> 0 then [Start_timer 1 0] else []) @
     [Lock, Unlock])"
  using assms
  by (cases s) (simp add: termios_timeout_def Let_def new_state_def and.assoc)

lemma termios_timeout_handling:
  "handling_modemstate s \<Longrightarrow> termios_timeout h os s = (s, [Lock, Unlock])"
  by (simp add: termios_timeout_def)

lemma termios_timeout_failed:
  "\<not> handling_modemstate s \<Longrightarrow> tiocmget_r os = Inl e \<Longrightarrow>
   termios_timeout h os s = (s\<lparr>handling_modemstate := True\<rparr>, [Lock, Unlock, Tiocmget])"
  by (simp add: termios_timeout_def)

lemma modemstate_levels_bits:
  "bit (modemstate_levels h val) 7 = (val AND TIOCM_CD h \<noteq> 0)"
  "bit (modemstate_levels h val) 6 = (val AND TIOCM_RI h \<noteq> 0)"
  "bit (modemstate_levels h val) 5 = (val AND TIOCM_DSR h \<noteq> 0)"
  "bit (modemstate_levels h val) 4 = (val AND TIOCM_CTS h \<noteq> 0)"
  by (simp_all add: modemstate_levels_def bit_or_iff)

lemma modemstate_levels_top_nibble:
  "modemstate_levels h val AND 0x0F = 0" "modemstate_levels h val \<le> 0xFF"
  by (simp_all add: modemstate_levels_def)

text \<open>
  C2. A tick that passes the guard and whose \<^verbatim>\<open>TIOCMGET\<close> answers \<open>val\<close> composes
  \<open>cur\<close> with CD, RI, DSR and CTS in the bits 7, 6, 5 and 4 and nothing in the bottom
  nibble, stores \<open>new_state = (cur | ((cur ^ last_modemstate) >> 4)) & modemstate_mask\<close>
  as \<open>last_modemstate\<close>, and dispatches one event, carrying \<open>new_state\<close>, exactly when no
  report was sent since the open or the bottom nibble of \<open>new_state\<close> is not zero.
\<close>

theorem termios_timeout_new_state:
  assumes "\<not> handling_modemstate sdata" and "tiocmget_r os = Inr val"
  shows "last_modemstate (fst (termios_timeout h os sdata)) =
           new_state h (last_modemstate sdata) (modemstate_mask sdata) val \<and>
         modemstate_events (snd (termios_timeout h os sdata)) =
           (if \<not> sent_first_modemstate sdata \<or>
               new_state h (last_modemstate sdata) (modemstate_mask sdata) val AND 0x0F \<noteq> 0
            then [new_state h (last_modemstate sdata) (modemstate_mask sdata) val]
            else []) \<and>
         new_state h (last_modemstate sdata) (modemstate_mask sdata) val =
           (modemstate_levels h val OR
            drop_bit 4 (modemstate_levels h val XOR last_modemstate sdata)) AND
           modemstate_mask sdata \<and>
         bit (modemstate_levels h val) 7 = (val AND TIOCM_CD h \<noteq> 0) \<and>
         bit (modemstate_levels h val) 6 = (val AND TIOCM_RI h \<noteq> 0) \<and>
         bit (modemstate_levels h val) 5 = (val AND TIOCM_DSR h \<noteq> 0) \<and>
         bit (modemstate_levels h val) 4 = (val AND TIOCM_CTS h \<noteq> 0) \<and>
         modemstate_levels h val AND 0x0F = 0"
proof -
  have "modemstate_events (snd (termios_timeout h os sdata)) =
          (if \<not> sent_first_modemstate sdata \<or>
              new_state h (last_modemstate sdata) (modemstate_mask sdata) val AND 0x0F \<noteq> 0
           then [new_state h (last_modemstate sdata) (modemstate_mask sdata) val]
           else [])"
    by (simp add: termios_timeout_sampled [OF assms] modemstate_events_def event_payload_def)
  moreover have "last_modemstate (fst (termios_timeout h os sdata)) =
      new_state h (last_modemstate sdata) (modemstate_mask sdata) val"
    by (simp add: termios_timeout_sampled [OF assms])
  moreover have "new_state h (last_modemstate sdata) (modemstate_mask sdata) val =
      (modemstate_levels h val OR
       drop_bit 4 (modemstate_levels h val XOR last_modemstate sdata)) AND
      modemstate_mask sdata"
    by (simp only: new_state_def Let_def)
  ultimately show ?thesis
    using modemstate_levels_bits [of h val] modemstate_levels_top_nibble(1) [of h val]
    by (simp only: simp_thms)
qed

theorem termios_timeout_new_state_witness:
  "\<not> handling_modemstate
       ((termios_gensio_alloc False () :: (unit, nat) sterm_data)\<lparr>modemstate_mask := 0xFF\<rparr>) \<and>
   tiocmget_r ((os_ok ())\<lparr>tiocmget_r := Inr 0x20\<rparr>) = Inr 0x20 \<and>
   last_modemstate (fst (termios_timeout linux_headers ((os_ok ())\<lparr>tiocmget_r := Inr 0x20\<rparr>)
       ((termios_gensio_alloc False () :: (unit, nat) sterm_data)\<lparr>modemstate_mask := 0xFF\<rparr>))) =
     0x11 \<and>
   modemstate_events (snd (termios_timeout linux_headers ((os_ok ())\<lparr>tiocmget_r := Inr 0x20\<rparr>)
       ((termios_gensio_alloc False () :: (unit, nat) sterm_data)\<lparr>modemstate_mask := 0xFF\<rparr>))) =
     [0x11]"
  using termios_timeout_new_state
    [of "(termios_gensio_alloc False () :: (unit, nat) sterm_data)\<lparr>modemstate_mask := 0xFF\<rparr>"
        "(os_ok ())\<lparr>tiocmget_r := Inr 0x20\<rparr>" "0x20" linux_headers]
  by (simp add: termios_gensio_alloc_def os_ok_def new_state_def modemstate_levels_def
      linux_headers_def)

section \<open>Reports of CTS edges\<close>


text \<open>A run of ticks, one for each sample of the modem lines.\<close>

definition ticks :: "'t os \<Rightarrow> word32 list \<Rightarrow> ('t, 'cb) call list" where
  "ticks os vals = map (\<lambda>v. Timeout (os\<lparr>tiocmget_r := Inr v\<rparr>)) vals"




lemma le_0xFF_bit: "(x::word32) \<le> 0xFF \<Longrightarrow> 8 \<le> n \<Longrightarrow> \<not> bit x n"
proof -
  assume a: "x \<le> 0xFF" and n: "8 \<le> n"
  have "unat x \<le> 255" using a by (simp add: word_le_nat_alt)
  then have "unat x < 2 ^ 8" by simp
  also have "(2::nat) ^ 8 \<le> 2 ^ n" using n by (rule power_increasing) simp
  finally have "unat x div 2 ^ n = 0" by simp
  then have "\<not> bit (unat x) n" by (simp add: bit_iff_odd)
  then show ?thesis by (simp add: bit_unsigned_iff)
qed




lemma run_append:
  "run h s (cs @ ds) =
     (case run h s cs of
        NullDeref \<Rightarrow> NullDeref
      | Ret (s1, tr1) \<Rightarrow>
          (case run h s1 ds of
             NullDeref \<Rightarrow> NullDeref
           | Ret (s2, tr2) \<Rightarrow> Ret (s2, tr1 @ tr2)))"
  by (induction cs arbitrary: s) (auto split: ub.splits)

lemma modemstate_events_append [simp]:
  "modemstate_events (tr @ tr') = modemstate_events tr @ modemstate_events tr'"
  by (simp add: modemstate_events_def)

lemma modemstate_events_Nil [simp]: "modemstate_events [] = []"
  by (simp add: modemstate_events_def)

lemma ticks_simps [simp]:
  "ticks os [] = []"
  "ticks os (v # vs) = Timeout (os\<lparr>tiocmget_r := Inr v\<rparr>) # ticks os vs"
  by (simp_all add: ticks_def)







section \<open>Drain on close\<close>

text \<open>
  The exit of the draining state in the words of the specification: the queue is empty,
  the timer has reported stopped and the output queue of the system is empty, or
  \<open>close_timeouts_left\<close> reaches zero in this poll.
\<close>

definition spec_close_exit :: "'t os \<Rightarrow> ('t, 'cb) sterm_data \<Rightarrow> bool" where
  "spec_close_exit os sdata =
     ((termio_q sdata = [] \<and> timer_stopped sdata \<and> tiocoutq_r os = Inr 0) \<or>
      close_timeouts_left
        (fst (snd (sterm_check_close_drain os sdata GENSIO_LL_CLOSE_STATE_DONE))) = 0)"

lemma check_close_drain_start:
  "sterm_check_close_drain os sdata GENSIO_LL_CLOSE_STATE_START =
     (None,
      sdata\<lparr>timer_stopped := (timer_stopped sdata \<or> stop_timer_with_done_r os \<noteq> 0),
            is_open := False, close_timeouts_left := 200\<rparr>,
      [Lock, Stop_timer_with_done, Unlock], None)"
  by (cases sdata) (simp add: sterm_check_close_drain_def Let_def)

text \<open>
  C4, as amended. The poll that starts the close clears \<open>is_open\<close>, sets
  \<open>close_timeouts_left\<close> to 200, asks the timer to stop and releases nothing. A later poll
  (state DONE) completes the close, returning 0, exactly when the queue is empty, the timer
  has reported stopped and one of three holds: \<^verbatim>\<open>TIOCOUTQ\<close> fails, it reports an empty
  output queue, or the decrement brings \<open>close_timeouts_left\<close> to zero. Every other poll
  returns \<open>EAGAIN\<close> and asks for the next poll in 10000 microseconds. The UUCP lock is
  released in exactly the polls that return 0. The counter is decremented only in a poll
  that finds the queue empty, the timer stopped and output pending.
\<close>

theorem check_close_drain_exit:
  "(fst (sterm_check_close_drain os sdata GENSIO_LL_CLOSE_STATE_DONE) = None) =
     (termio_q sdata = [] \<and> timer_stopped sdata \<and>
      (isl (tiocoutq_r os) \<or> tiocoutq_r os = Inr 0 \<or> close_timeouts_left sdata - 1 = 0)) \<and>
   (fst (sterm_check_close_drain os sdata GENSIO_LL_CLOSE_STATE_DONE) \<noteq> None) =
     (fst (sterm_check_close_drain os sdata GENSIO_LL_CLOSE_STATE_DONE) = Some EAGAIN) \<and>
   (Uucp_rm_lock \<in> set (fst (snd (snd (sterm_check_close_drain os sdata GENSIO_LL_CLOSE_STATE_DONE))))) =
     (fst (sterm_check_close_drain os sdata GENSIO_LL_CLOSE_STATE_DONE) = None) \<and>
   snd (snd (snd (sterm_check_close_drain os sdata GENSIO_LL_CLOSE_STATE_DONE))) =
     (if fst (sterm_check_close_drain os sdata GENSIO_LL_CLOSE_STATE_DONE) = None then None
      else Some (0, 10000)) \<and>
   close_timeouts_left (fst (snd (sterm_check_close_drain os sdata GENSIO_LL_CLOSE_STATE_DONE))) =
     (if termio_q sdata = [] \<and> timer_stopped sdata \<and> \<not> isl (tiocoutq_r os) \<and>
         tiocoutq_r os \<noteq> Inr 0
      then close_timeouts_left sdata - 1 else close_timeouts_left sdata) \<and>
   sterm_check_close_drain os sdata GENSIO_LL_CLOSE_STATE_START =
     (None,
      sdata\<lparr>timer_stopped := (timer_stopped sdata \<or> stop_timer_with_done_r os \<noteq> 0),
            is_open := False, close_timeouts_left := 200\<rparr>,
      [Lock, Stop_timer_with_done, Unlock], None)"
  by (simp only: check_close_drain_start)
     (auto simp: sterm_check_close_drain_def Let_def split: sum.splits)

text \<open>An endpoint in the draining state: closed, the timer stopped, the full budget left.\<close>

definition draining :: "(unit, nat) sterm_data" where
  "draining = (termios_gensio_alloc False ())\<lparr>timer_stopped := True, close_timeouts_left := 200\<rparr>"

text \<open>
  C4 as stated fails: a poll whose \<^verbatim>\<open>TIOCOUTQ\<close> fails completes the close and releases
  the lock, although the output queue was not found empty and the counter stays at 200.
\<close>

theorem close_exit_on_tiocoutq_failure:
  "sterm_check_close_drain ((os_ok ())\<lparr>tiocoutq_r := Inl (Errno 5)\<rparr>) draining
     GENSIO_LL_CLOSE_STATE_DONE =
     (None, draining, [Lock, Tiocoutq, Uucp_rm_lock, Unlock], None) \<and>
   \<not> spec_close_exit ((os_ok ())\<lparr>tiocoutq_r := Inl (Errno 5)\<rparr>) draining"
  by (simp add: spec_close_exit_def sterm_check_close_drain_def Let_def draining_def
      termios_gensio_alloc_def os_ok_def)

text \<open>
  The budget of the drain. \<open>drain_polls os sdata n\<close> is the endpoint after \<open>n\<close> polls in
  the state DONE, all answered by \<open>os\<close>. With the queue empty, the timer stopped and
  output that stays pending, the counter set to 200 lets 199 polls return \<open>EAGAIN\<close>; poll
  number 200 completes the close.
\<close>

fun drain_polls :: "'t os \<Rightarrow> ('t, 'cb) sterm_data \<Rightarrow> nat \<Rightarrow> ('t, 'cb) sterm_data" where
  "drain_polls os sdata 0 = sdata"
| "drain_polls os sdata (Suc n) =
     fst (snd (sterm_check_close_drain os (drain_polls os sdata n) GENSIO_LL_CLOSE_STATE_DONE))"

lemma check_close_drain_pending:
  assumes "termio_q s = []" "timer_stopped s" "tiocoutq_r os = Inr c" "c \<noteq> 0"
  shows "sterm_check_close_drain os s GENSIO_LL_CLOSE_STATE_DONE =
     (if close_timeouts_left s - 1 = 0
      then (None, s\<lparr>is_open := False, close_timeouts_left := close_timeouts_left s - 1\<rparr>,
            [Lock, Tiocoutq, Uucp_rm_lock, Unlock], None)
      else (Some EAGAIN, s\<lparr>is_open := False, close_timeouts_left := close_timeouts_left s - 1\<rparr>,
            [Lock, Tiocoutq, Unlock], Some (0, 10000)))"
  using assms by (simp add: sterm_check_close_drain_def Let_def)

lemma word_eq_1_unat: "((w::word32) = 1) = (unat w = 1)"
  by (simp add: word_unat_eq_iff)

lemma drain_polls_counter:
  assumes "termio_q s = []" "timer_stopped s" "close_timeouts_left s = 200"
    "tiocoutq_r os = Inr c" "c \<noteq> 0"
  shows "n \<le> 199 \<Longrightarrow>
     termio_q (drain_polls os s n) = [] \<and> timer_stopped (drain_polls os s n) \<and>
     unat (close_timeouts_left (drain_polls os s n)) = 200 - n"
proof (induction n)
  case 0
  then show ?case using assms by simp
next
  case (Suc n)
  let ?s = "drain_polls os s n"
  from Suc have q: "termio_q ?s = []" and t: "timer_stopped ?s"
    and u: "unat (close_timeouts_left ?s) = 200 - n" by simp_all
  have nz: "close_timeouts_left ?s \<noteq> 0" using u Suc.prems by (auto simp: unat_eq_0 [symmetric])
  have u1: "unat (close_timeouts_left ?s - 1) = 200 - Suc n"
    using nz u by (simp add: unat_minus_one)
  have "close_timeouts_left ?s \<noteq> 1"
    using u Suc.prems by (simp add: word_eq_1_unat)
  then show ?case
    using q t u1 by (simp add: check_close_drain_pending [OF q t assms(4,5)])
qed

lemma close_drain_budget:
  assumes "termio_q s = []" "timer_stopped s" "close_timeouts_left s = 200"
    "tiocoutq_r os = Inr c" "c \<noteq> 0" and that: "n \<le> 199"
  shows "fst (sterm_check_close_drain os (drain_polls os s n) GENSIO_LL_CLOSE_STATE_DONE) =
           (if n < 199 then Some EAGAIN else None)"
proof -
  let ?s = "drain_polls os s n"
  from drain_polls_counter [OF assms(1-5) that]
  have q: "termio_q ?s = []" and t: "timer_stopped ?s"
    and u: "unat (close_timeouts_left ?s) = 200 - n" by simp_all
  have "(close_timeouts_left ?s = 1) = (n = 199)"
    using u that by (simp add: word_eq_1_unat) arith
  then show ?thesis
    using that by (auto simp: check_close_drain_pending [OF q t assms(4,5)])
qed

section \<open>Submitting on a closed endpoint\<close>

text \<open>
  C7, as amended. A submit of any operation on an endpoint that is not write-only and not
  open changes nothing of the endpoint, calls nothing of the tty and leaves the queue
  alone. It returns \<open>EBUSY\<close>, but for one case: with a completion, the queue entry is
  allocated before the open flag is read, so a failing allocation returns \<open>ENOMEM\<close>, and
  an entry that was allocated is freed again before the call returns.
\<close>

theorem submit_closed:
  assumes "\<not> write_only sdata" and "\<not> is_open sdata"
  shows "termios_set_get h sdata val op getset done_cb os =
     (if done_cb \<noteq> None \<and> \<not> zalloc_r os then Ret (Some ENOMEM, sdata, [Zalloc_qe])
      else if done_cb \<noteq> None then Ret (Some EBUSY, sdata, [Zalloc_qe, Lock, Free_qe, Unlock])
      else Ret (Some EBUSY, sdata, [Lock, Unlock]))"
  using assms by (simp add: termios_set_get_def out_unlock_def Let_def)

theorem submit_closed_witness:
  "\<not> write_only (termios_gensio_alloc False () :: (unit, nat) sterm_data) \<and>
   \<not> is_open (termios_gensio_alloc False () :: (unit, nat) sterm_data) \<and>
   termios_set_get linux_headers (termios_gensio_alloc False () :: (unit, nat) sterm_data)
       1 TERMIO_OP_BRK None None (os_ok ()) =
     Ret (Some EBUSY, termios_gensio_alloc False (), [Lock, Unlock])"
  using submit_closed [of "termios_gensio_alloc False () :: (unit, nat) sterm_data"
      linux_headers 1 TERMIO_OP_BRK None None "os_ok ()"]
  by (simp add: termios_gensio_alloc_def)

text \<open>
  C7 as stated fails: with a completion, the submit on the closed endpoint allocates a queue
  entry (and frees it); when that allocation fails, it returns \<open>ENOMEM\<close>, not \<open>EBUSY\<close>.
\<close>

theorem submit_closed_allocates:
  "termios_set_get linux_headers (termios_gensio_alloc False () :: (unit, nat) sterm_data)
       0 TERMIO_OP_BRK None (Some 7) (os_ok ()) =
     Ret (Some EBUSY, termios_gensio_alloc False (), [Zalloc_qe, Lock, Free_qe, Unlock]) \<and>
   termios_set_get linux_headers (termios_gensio_alloc False () :: (unit, nat) sterm_data)
       0 TERMIO_OP_BRK None (Some 7) ((os_ok ())\<lparr>zalloc_r := False\<rparr>) =
     Ret (Some ENOMEM, termios_gensio_alloc False (), [Zalloc_qe])"
  by (simp add: termios_set_get_def out_unlock_def Let_def termios_gensio_alloc_def os_ok_def)

section \<open>Sets with and without a completion\<close>



lemma out_unlock_defined [simp]: "out_unlock s e q tr \<noteq> NullDeref"
  by (simp add: out_unlock_def)

lemma enqueue_unlock_defined [simp]: "enqueue_unlock s q tr \<noteq> NullDeref"
  by (simp add: enqueue_unlock_def sterm_start_deferred_op_def split: option.splits)






section \<open>The BREAK latch\<close>



lemma completions_simps [simp]:
  "completions [] = []"
  "completions (tr @ tr') = completions tr @ completions tr'"
  "completions (Done_cb cb err val # tr) = (cb, err, val) # completions tr"
  "completions (Lock # tr) = completions tr"
  "completions (Unlock # tr) = completions tr"
  "completions (Free_qe # tr) = completions tr"
  "completions (Tcgetattr # tr) = completions tr"
  "completions (Tiocmget # tr) = completions tr"
  by (simp_all add: completions_def done_payload_def)






















section \<open>BREAK across a close and a new open\<close>

text \<open>
  C6. The claim: after every successful open of an endpoint that is not write-only, also a
  new open after a close with BREAK latched on, BREAK is cleared and a BREAK get queued
  right after the open completes with OFF. The open clears BREAK on the line
  (\<^verbatim>\<open>TIOCCBRK\<close>) but leaves \<open>break_set\<close> as it was: after open, BREAK on, close and
  open again, the get completes with ON. After the first open of an endpoint it
  completes with OFF.
\<close>

theorem reopen_break_get_reports_on:
  "map_ub (completions \<circ> snd)
     (run linux_headers (termios_gensio_alloc False () :: (unit, nat) sterm_data)
        [Sub_open (os_ok ()),
         Submit (SERGENSIO_BREAK_ON linux_headers) TERMIO_OP_BRK None None (os_ok ()),
         Check_close_drain GENSIO_LL_CLOSE_STATE_START (os_ok ()),
         Timer_stopped,
         Check_close_drain GENSIO_LL_CLOSE_STATE_DONE (os_ok ()),
         Sub_open (os_ok ()),
         Submit 0 TERMIO_OP_BRK None (Some 7) (os_ok ()),
         Deferred_op (os_ok ())]) =
     Ret [(7, None, SERGENSIO_BREAK_ON linux_headers)] \<and>
   map_ub (completions \<circ> snd)
     (run linux_headers (termios_gensio_alloc False () :: (unit, nat) sterm_data)
        [Sub_open (os_ok ()),
         Submit 0 TERMIO_OP_BRK None (Some 7) (os_ok ()),
         Deferred_op (os_ok ())]) =
     Ret [(7, None, SERGENSIO_BREAK_OFF linux_headers)] \<and>
   map_ub (break_set \<circ> fst)
     (run linux_headers (termios_gensio_alloc False () :: (unit, nat) sterm_data)
        [Sub_open (os_ok ()),
         Submit (SERGENSIO_BREAK_ON linux_headers) TERMIO_OP_BRK None None (os_ok ()),
         Check_close_drain GENSIO_LL_CLOSE_STATE_START (os_ok ()),
         Timer_stopped,
         Check_close_drain GENSIO_LL_CLOSE_STATE_DONE (os_ok ()),
         Sub_open (os_ok ())]) = Ret True \<and>
   snd (snd (sterm_sub_open (os_ok ())
        ((termios_gensio_alloc False () :: (unit, nat) sterm_data)\<lparr>break_set := True\<rparr>))) =
     [Uucp_mk_lock, Open_dev False, Tcsetattr (), Tioccbrk, Lock, Unlock,
      Lock, Unlock, Start_timer 0 1] \<and>
   SERGENSIO_BREAK_ON linux_headers \<noteq> SERGENSIO_BREAK_OFF linux_headers"
  by (simp add: termios_gensio_alloc_def os_ok_def linux_headers_def
      sterm_sub_open_def sub_open_out_def sterm_modemstate_def sterm_check_close_drain_def
      sterm_timer_stopped_def termios_set_get_def out_unlock_def enqueue_unlock_def
      sterm_start_deferred_op_def sterm_deferred_op_def sterm_deferred_op_restart.simps
      termios_process.simps qe_readback_def Let_def completions_def done_payload_def)

section \<open>A poll that fails\<close>

text \<open>
  The actions only a tick that runs to its end performs: the dispatch of a modem-state
  event, and the start of the timer for one second (a subscribe starts it for one
  microsecond).
\<close>

definition poller_action :: "('t, 'cb) action \<Rightarrow> bool" where
  "poller_action a =
     (case a of
        Gensio_cb_modemstate v \<Rightarrow> True
      | Start_timer sec usec \<Rightarrow> sec = 1 \<and> usec = 0
      | _ \<Rightarrow> False)"

lemma poller_action_simps [simp]:
  "\<not> poller_action Lock" "\<not> poller_action Unlock" "\<not> poller_action Zalloc_qe"
  "\<not> poller_action Free_qe" "\<not> poller_action Run_deferred_op" "\<not> poller_action Tcgetattr"
  "\<not> poller_action (Tcsetattr t)" "\<not> poller_action Tiocmget" "\<not> poller_action (Tiocmset m)"
  "\<not> poller_action Tiocsbrk" "\<not> poller_action Tioccbrk" "\<not> poller_action Tiocoutq"
  "\<not> poller_action (Done_cb cb e v)" "poller_action (Gensio_cb_modemstate v)"
  "poller_action (Start_timer sec usec) = (sec = 1 \<and> usec = 0)"
  "\<not> poller_action Stop_timer" "\<not> poller_action Stop_timer_with_done"
  "\<not> poller_action Uucp_mk_lock" "\<not> poller_action Uucp_rm_lock"
  "\<not> poller_action (Open_dev w)" "\<not> poller_action (Close_fd n)"
  by (simp_all add: poller_action_def)

lemma set_get_poller:
  assumes "termios_set_get h s v op g d os = Ret (e, s', tr)"
  shows "handling_modemstate s' = handling_modemstate s \<and>
         last_modemstate s' = last_modemstate s \<and> filter poller_action tr = []"
  using assms
  by (auto simp: termios_set_get_def Let_def out_unlock_def enqueue_unlock_def
      sterm_start_deferred_op_def
      split: if_splits termio_op.splits sum.splits ub.splits option.splits)

lemma qe_readback_poller:
  "qe_readback h os i s qe = Ret (err, val, rd) \<Longrightarrow> filter poller_action rd = []"
  by (auto simp: qe_readback_def split: termio_op.splits sum.splits ub.splits)

lemma termios_process_poller:
  "termios_process h os i s = Ret (s', tr) \<Longrightarrow>
   handling_modemstate s' = handling_modemstate s \<and>
   last_modemstate s' = last_modemstate s \<and> filter poller_action tr = []"
proof (induction h os i s arbitrary: s' tr rule: termios_process.induct)
  case (1 h os i sdata)
  show ?case
  proof (cases "termio_q sdata")
    case Nil
    with "1.prems" show ?thesis
      by (simp add: termios_process.simps [of h os i sdata])
  next
    case (Cons qe rest)
    with "1.prems" "1.IH" show ?thesis
      by (fastforce simp: termios_process.simps [of h os i sdata]
          dest: qe_readback_poller split: ub.splits prod.splits)
  qed
qed

lemma sterm_deferred_op_poller:
  assumes "sterm_deferred_op h os s = Ret (s', tr)"
  shows "handling_modemstate s' = handling_modemstate s \<and>
         last_modemstate s' = last_modemstate s \<and> filter poller_action tr = []"
proof -
  obtain s1 tr1 where p: "termios_process h os 0 s = Ret (s1, tr1)"
    using assms
    by (cases "termios_process h os 0 s")
       (auto simp: sterm_deferred_op_def sterm_deferred_op_restart.simps [of h os s])
  have e: "termio_q s1 = []" using p by (rule termios_process_empties)
  have "s' = s1\<lparr>deferred_op_pending := False\<rparr> \<and> tr = Lock # tr1 @ [Unlock]"
    using assms by (simp add: sterm_deferred_op_def sterm_deferred_op_restart.simps [of h os s] p e)
  then show ?thesis
    using termios_process_poller [OF p] by simp
qed

lemma sterm_modemstate_poller:
  "handling_modemstate (fst (sterm_modemstate s v)) = handling_modemstate s \<and>
   last_modemstate (fst (sterm_modemstate s v)) = last_modemstate s \<and>
   filter poller_action (snd (sterm_modemstate s v)) = []"
  by (simp add: sterm_modemstate_def Let_def)

lemma sterm_check_close_drain_poller:
  "handling_modemstate (fst (snd (sterm_check_close_drain os s st))) = handling_modemstate s \<and>
   last_modemstate (fst (snd (sterm_check_close_drain os s st))) = last_modemstate s \<and>
   filter poller_action (fst (snd (snd (sterm_check_close_drain os s st)))) = []"
  by (simp add: sterm_check_close_drain_def Let_def split: sum.splits)

lemma sterm_sub_open_poller:
  "handling_modemstate (fst (snd (sterm_sub_open os s))) = handling_modemstate s \<and>
   last_modemstate (fst (snd (sterm_sub_open os s))) = last_modemstate s \<and>
   filter poller_action (snd (snd (sterm_sub_open os s))) = []"
  by (simp add: sterm_sub_open_def sub_open_out_def sterm_modemstate_def Let_def
      split: sum.splits option.splits)

lemma api_stuck:
  assumes "handling_modemstate s" "api h s c = Ret (s', tr)"
  shows "handling_modemstate s' \<and> filter poller_action tr = []"
proof (cases c)
  case (Submit v op g d os)
  with assms show ?thesis by (auto split: ub.splits dest: set_get_poller)
next
  case (Deferred_op os)
  with assms show ?thesis by (auto dest: sterm_deferred_op_poller)
next
  case (Timeout os)
  with assms show ?thesis by (auto simp: termios_timeout_handling)
next
  case (Modemstate v)
  with assms sterm_modemstate_poller [of s v] show ?thesis by auto
next
  case Timer_stopped
  with assms show ?thesis by (auto simp: sterm_timer_stopped_def)
next
  case (Check_close_drain st os)
  with assms sterm_check_close_drain_poller [of os s st] show ?thesis
    by (auto split: prod.splits)
next
  case (Sub_open os)
  with assms sterm_sub_open_poller [of os s] show ?thesis
    by (auto split: prod.splits)
qed

lemma run_stuck:
  "handling_modemstate s \<Longrightarrow> run h s cs = Ret (s', tr) \<Longrightarrow>
   handling_modemstate s' \<and> filter poller_action tr = []"
proof (induction cs arbitrary: s tr)
  case Nil
  then show ?case by simp
next
  case (Cons c cs)
  from Cons.prems(2) obtain s1 tr1 tr2 where a: "api h s c = Ret (s1, tr1)"
    and r: "run h s1 cs = Ret (s', tr2)" and tr: "tr = tr1 @ tr2"
    by (auto split: ub.splits)
  from api_stuck [OF Cons.prems(1) a] have h1: "handling_modemstate s1"
    and f1: "filter poller_action tr1 = []" by simp_all
  from Cons.IH [OF h1 r] show ?case
    by (simp add: tr f1)
qed

lemma no_poller_action_no_events:
  "filter poller_action tr = [] \<Longrightarrow> modemstate_events tr = []"
proof (induction tr)
  case Nil
  then show ?case by simp
next
  case (Cons a tr)
  then show ?case
    by (cases a) (auto simp: modemstate_events_def event_payload_def split: if_splits)
qed

text \<open>
  C9. A tick whose \<^verbatim>\<open>TIOCMGET\<close> fails returns with \<open>handling_modemstate\<close> set, having
  dispatched nothing and not started the timer. No entry point of the endpoint clears the
  flag, so after any calls that follow (ticks, subscribes with any mask, submits, runs of
  the runner, closes, opens) the flag is still set, no modem-state event was dispatched, no
  tick started the timer again, and every further tick returns at the guard.
\<close>

theorem poll_failure_stops_poller:
  assumes "\<not> handling_modemstate sdata" and "tiocmget_r os = Inl e"
    and "run h (fst (termios_timeout h os sdata)) calls = Ret (sdata', tr)"
  shows "handling_modemstate (fst (termios_timeout h os sdata)) \<and>
         filter poller_action (snd (termios_timeout h os sdata)) = [] \<and>
         handling_modemstate sdata' \<and>
         filter poller_action tr = [] \<and> modemstate_events tr = [] \<and>
         termios_timeout h os' sdata' = (sdata', [Lock, Unlock])"
proof -
  have t: "termios_timeout h os sdata =
      (sdata\<lparr>handling_modemstate := True\<rparr>, [Lock, Unlock, Tiocmget])"
    using assms(1,2) by (rule termios_timeout_failed)
  have h1: "handling_modemstate (fst (termios_timeout h os sdata))" by (simp add: t)
  from run_stuck [OF h1 assms(3)] have h2: "handling_modemstate sdata'"
    and f2: "filter poller_action tr = []" by simp_all
  show ?thesis
    using h1 h2 f2 no_poller_action_no_events [OF f2]
    by (simp add: t termios_timeout_handling)
qed


theorem poll_failure_stops_poller_witness:
  "\<not> handling_modemstate (polling 0xFF) \<and>
   tiocmget_r ((os_ok ())\<lparr>tiocmget_r := Inl (Errno 5)\<rparr>) = Inl (Errno 5) \<and>
   run linux_headers
     (fst (termios_timeout linux_headers ((os_ok ())\<lparr>tiocmget_r := Inl (Errno 5)\<rparr>)
        (polling 0xFF)))
     [Timeout (os_ok ()), Modemstate 0x11, Timeout ((os_ok ())\<lparr>tiocmget_r := Inr 0x20\<rparr>)] =
     Ret ((polling 0x11)\<lparr>handling_modemstate := True\<rparr>,
          [Lock, Unlock, Lock, Unlock, Start_timer 0 1, Lock, Unlock]) \<and>
   handling_modemstate ((polling 0x11)\<lparr>handling_modemstate := True\<rparr>) \<and>
   modemstate_events
     [Lock, Unlock, Lock, Unlock, Start_timer 0 1, Lock, Unlock :: (unit, nat) action] = [] \<and>
   termios_timeout linux_headers ((os_ok ())\<lparr>tiocmget_r := Inr 0x20\<rparr>)
       ((polling 0x11)\<lparr>handling_modemstate := True\<rparr>) =
     ((polling 0x11)\<lparr>handling_modemstate := True\<rparr>, [Lock, Unlock])"
  using poll_failure_stops_poller [where sdata = "polling 0xFF"
      and os = "(os_ok ())\<lparr>tiocmget_r := Inl (Errno 5)\<rparr>" and e = "Errno 5"
      and h = linux_headers
      and calls = "[Timeout (os_ok ()), Modemstate 0x11,
                    Timeout ((os_ok ())\<lparr>tiocmget_r := Inr 0x20\<rparr>)]"
      and sdata' = "(polling 0x11)\<lparr>handling_modemstate := True\<rparr>"
      and tr = "[Lock, Unlock, Lock, Unlock, Start_timer 0 1, Lock, Unlock]"
      and os' = "(os_ok ())\<lparr>tiocmget_r := Inr 0x20\<rparr>"]
  by (simp add: polling_def termios_gensio_alloc_def os_ok_def termios_timeout_def
      sterm_modemstate_def Let_def)

section \<open>The forced first report\<close>

text \<open>
  The forced reports of a run: the events dispatched by a tick that found
  \<open>sent_first_modemstate\<close> false (\<^verbatim>\<open>force_send\<close>); such a tick sets the flag, and no
  other call dispatches an event.
\<close>

fun forced_reports :: "headers \<Rightarrow> ('t, 'cb) sterm_data \<Rightarrow> ('t, 'cb) call list \<Rightarrow> nat" where
  "forced_reports h sdata [] = 0"
| "forced_reports h sdata (c # cs) =
     (case api h sdata c of
        NullDeref \<Rightarrow> 0
      | Ret (sdata1, tr) \<Rightarrow>
          (if \<not> sent_first_modemstate sdata \<and> sent_first_modemstate sdata1 \<and>
              modemstate_events tr \<noteq> []
           then 1 else 0) + forced_reports h sdata1 cs)"

lemma forced_reports_tick:
  "forced_reports h s [Timeout os] =
     (if \<not> handling_modemstate s \<and> \<not> isl (tiocmget_r os) \<and> \<not> sent_first_modemstate s
      then 1 else 0)"
  by (cases "tiocmget_r os")
     (auto simp: termios_timeout_def Let_def modemstate_events_def event_payload_def)

lemma forced_reports_append:
  "run h s cs = Ret (s1, tr1) \<Longrightarrow>
   forced_reports h s (cs @ ds) = forced_reports h s cs + forced_reports h s1 ds"
  by (induction cs arbitrary: s tr1) (auto split: ub.splits)

lemma forced_reports_ticks:
  assumes "\<not> handling_modemstate s"
  shows "\<exists>s1 tr1. run h s (ticks os vals) = Ret (s1, tr1) \<and> \<not> handling_modemstate s1 \<and>
           sent_first_modemstate s1 = (sent_first_modemstate s \<or> vals \<noteq> []) \<and>
           forced_reports h s (ticks os vals) =
             (if \<not> sent_first_modemstate s \<and> vals \<noteq> [] then 1 else 0)"
  using assms
proof (induction vals arbitrary: s)
  case Nil
  then show ?case by simp
next
  case (Cons v vs)
  let ?os = "os\<lparr>tiocmget_r := Inr v\<rparr>"
  let ?N = "new_state h (last_modemstate s) (modemstate_mask s) v"
  let ?s1 = "s\<lparr>last_modemstate := ?N, sent_first_modemstate := True\<rparr>"
  have t: "termios_timeout h ?os s =
     (?s1, [Lock, Unlock, Tiocmget, Lock, Unlock] @
           (if \<not> sent_first_modemstate s \<or> ?N AND 0xf \<noteq> 0
            then [Gensio_cb_modemstate ?N] else []) @
           (if modemstate_mask s \<noteq> 0 then [Start_timer 1 0] else []) @ [Lock, Unlock])"
    using Cons.prems by (simp add: termios_timeout_sampled)
  have ev: "\<not> sent_first_modemstate s \<Longrightarrow> modemstate_events (snd (termios_timeout h ?os s)) \<noteq> []"
    unfolding t by (simp add: modemstate_events_def event_payload_def)
  have "\<not> handling_modemstate ?s1" using Cons.prems by simp
  from Cons.IH [OF this] obtain s2 tr2 where r: "run h ?s1 (ticks os vs) = Ret (s2, tr2)"
    and h2: "\<not> handling_modemstate s2" and sf: "sent_first_modemstate s2"
    and f: "forced_reports h ?s1 (ticks os vs) = 0"
    by auto
  have "run h s (ticks os (v # vs)) = Ret (s2, snd (termios_timeout h ?os s) @ tr2)"
    by (simp add: t r)
  moreover have "forced_reports h s (ticks os (v # vs)) =
      (if \<not> sent_first_modemstate s then 1 else 0)"
    using ev f by (simp add: t)
  ultimately show ?case
    using h2 sf by simp
qed

lemma sterm_sub_open_ok:
  assumes "sterm_sub_open os s = (None, s', tr)"
  shows "\<not> sent_first_modemstate s' \<and> is_open s' \<and>
         handling_modemstate s' = handling_modemstate s \<and> write_only s' = write_only s"
  using assms
  by (auto simp: sterm_sub_open_def sub_open_out_def sterm_modemstate_def Let_def
      split: if_splits sum.splits option.splits)

lemma subscribe_restarts_timer:
  "M \<noteq> 0 \<Longrightarrow>
   run h s [Modemstate 0, Modemstate M] =
     Ret (s\<lparr>modemstate_mask := M\<rparr>,
          [Lock, Unlock, Stop_timer, Lock, Unlock, Start_timer 0 1])"
  by (simp add: sterm_modemstate_def Let_def)

text \<open>
  When no \<^verbatim>\<open>TIOCMGET\<close> fails: after a successful open of an endpoint whose poller is
  idle, ticks, then \<open>subscribe(0)\<close> and \<open>subscribe(M)\<close>, then ticks again dispatch exactly
  one forced report as soon as one tick has run, however many ticks ran before.
\<close>

lemma one_forced_report:
  assumes "\<not> handling_modemstate sdata0"
    and "sterm_sub_open os0 sdata0 = (None, sdata, tr0)"
    and "M \<noteq> 0"
  shows "forced_reports h sdata
           (ticks os vals1 @ [Modemstate 0, Modemstate M] @ ticks os vals2) =
           (if vals1 = [] \<and> vals2 = [] then 0 else 1)"
proof -
  from sterm_sub_open_ok [OF assms(2)] assms(1)
  have sf: "\<not> sent_first_modemstate sdata" and hm: "\<not> handling_modemstate sdata" by simp_all
  from forced_reports_ticks [OF hm, of h os vals1]
  obtain s1 tr1 where r1: "run h sdata (ticks os vals1) = Ret (s1, tr1)"
    and h1: "\<not> handling_modemstate s1"
    and sf1: "sent_first_modemstate s1 = (vals1 \<noteq> [])"
    and f1: "forced_reports h sdata (ticks os vals1) = (if vals1 \<noteq> [] then 1 else 0)"
    using sf by auto
  let ?s2 = "s1\<lparr>modemstate_mask := M\<rparr>"
  have r2: "run h s1 [Modemstate 0, Modemstate M] =
      Ret (?s2, [Lock, Unlock, Stop_timer, Lock, Unlock, Start_timer 0 1])"
    using assms(3) by (rule subscribe_restarts_timer)
  have f2: "forced_reports h s1 [Modemstate 0, Modemstate M] = 0"
    by (simp add: sterm_modemstate_def Let_def modemstate_events_def event_payload_def)
  have h2: "\<not> handling_modemstate ?s2" using h1 by simp
  from forced_reports_ticks [OF h2, of h os vals2]
  have f3: "forced_reports h ?s2 (ticks os vals2) =
      (if vals1 = [] \<and> vals2 \<noteq> [] then 1 else 0)"
    using sf1 by auto
  have "forced_reports h sdata (ticks os vals1 @ [Modemstate 0, Modemstate M] @ ticks os vals2) =
      forced_reports h sdata (ticks os vals1) +
      (forced_reports h s1 [Modemstate 0, Modemstate M] + forced_reports h ?s2 (ticks os vals2))"
    by (simp only: forced_reports_append [OF r1] forced_reports_append [OF r2])
  also have "\<dots> = (if vals1 = [] \<and> vals2 = [] then 0 else 1)"
    unfolding f1 f2 f3 by simp
  finally show ?thesis .
qed

text \<open>
  C8. The claim: after a successful open, \<open>subscribe(0)\<close> and then \<open>subscribe(M)\<close> with
  \<open>M \<noteq> 0\<close> give exactly one forced first report for that open. When the first tick after
  the open fails in \<^verbatim>\<open>TIOCMGET\<close>, the poller stays behind its guard: the two subscribes
  and the ticks that follow dispatch nothing, and the open never gets its forced report.
  Without the failure the same calls dispatch it once.
\<close>

theorem poll_failure_loses_forced_report:
  "map_ub (modemstate_events \<circ> snd)
     (run linux_headers (termios_gensio_alloc False () :: (unit, nat) sterm_data)
        [Sub_open (os_ok ()),
         Timeout ((os_ok ())\<lparr>tiocmget_r := Inl (Errno 5)\<rparr>),
         Modemstate 0, Modemstate 0x10,
         Timeout (os_ok ()), Timeout ((os_ok ())\<lparr>tiocmget_r := Inr 0x20\<rparr>)]) = Ret [] \<and>
   forced_reports linux_headers (termios_gensio_alloc False () :: (unit, nat) sterm_data)
        [Sub_open (os_ok ()),
         Timeout ((os_ok ())\<lparr>tiocmget_r := Inl (Errno 5)\<rparr>),
         Modemstate 0, Modemstate 0x10,
         Timeout (os_ok ()), Timeout ((os_ok ())\<lparr>tiocmget_r := Inr 0x20\<rparr>)] = 0 \<and>
   map_ub (modemstate_events \<circ> snd)
     (run linux_headers (termios_gensio_alloc False () :: (unit, nat) sterm_data)
        [Sub_open (os_ok ()),
         Modemstate 0, Modemstate 0x10,
         Timeout (os_ok ()), Timeout ((os_ok ())\<lparr>tiocmget_r := Inr 0x20\<rparr>)]) = Ret [0]"
  by (simp add: termios_gensio_alloc_def os_ok_def linux_headers_def
      sterm_sub_open_def sub_open_out_def sterm_modemstate_def termios_timeout_def Let_def
      modemstate_levels_def modemstate_events_def event_payload_def)

section \<open>The stored modem-state word\<close>

text \<open>
  \<open>last_modemstate\<close> is an 8-bit word in every state the endpoint reaches: it is 0 when
  the endpoint is built, only a tick writes it, and a tick keeps it below 256 whatever the
  mask is.
\<close>

lemma bit_le_0xFF:
  assumes "\<And>n. 8 \<le> n \<Longrightarrow> \<not> bit x n"
  shows "(x::word32) \<le> 0xFF"
proof -
  have "take_bit 8 x = x"
  proof (rule bit_eqI)
    fix n
    show "bit (take_bit 8 x) n = bit x n"
      using assms [of n] by (cases "n < 8") (auto simp: bit_take_bit_iff)
  qed
  then have "unat x = take_bit 8 (unat x)"
    by (metis unsigned_take_bit_eq)
  also have "\<dots> < 2 ^ 8" by (rule take_bit_nat_less_exp)
  finally have "unat x \<le> 255" by simp
  then show ?thesis by (simp add: word_le_nat_alt)
qed

lemma new_state_le_0xFF:
  assumes "L \<le> 0xFF"
  shows "new_state h L m v \<le> 0xFF"
proof (rule bit_le_0xFF)
  fix n :: nat
  assume n: "8 \<le> n"
  have c: "\<not> bit (modemstate_levels h v) k" if "8 \<le> k" for k
    using that by (rule le_0xFF_bit [OF modemstate_levels_top_nibble(2)])
  have l: "\<not> bit L k" if "8 \<le> k" for k
    using that by (rule le_0xFF_bit [OF assms])
  show "\<not> bit (new_state h L m v) n"
    using c [of n] c [of "n + 4"] l [of "n + 4"] n
    by (simp add: new_state_def Let_def bit_and_iff bit_or_iff bit_drop_bit_eq bit_xor_iff
        add.commute)
qed

lemma termios_timeout_last_le:
  "last_modemstate s \<le> 0xFF \<Longrightarrow> last_modemstate (fst (termios_timeout h os s)) \<le> 0xFF"
proof (cases "handling_modemstate s")
  case True
  assume "last_modemstate s \<le> 0xFF"
  with True show ?thesis by (simp add: termios_timeout_handling)
next
  case False
  assume L: "last_modemstate s \<le> 0xFF"
  show ?thesis
  proof (cases "tiocmget_r os")
    case (Inl e)
    with False L show ?thesis by (simp add: termios_timeout_failed)
  next
    case (Inr v)
    with False L show ?thesis by (simp add: termios_timeout_sampled new_state_le_0xFF)
  qed
qed

lemma api_last_modemstate_le:
  assumes "last_modemstate s \<le> 0xFF" "api h s c = Ret (s', tr)"
  shows "last_modemstate s' \<le> 0xFF"
proof (cases c)
  case (Submit v op g d os)
  with assms show ?thesis by (auto split: ub.splits dest: set_get_poller)
next
  case (Deferred_op os)
  with assms show ?thesis by (auto dest: sterm_deferred_op_poller)
next
  case (Timeout os)
  with assms termios_timeout_last_le [of s h os] show ?thesis by auto
next
  case (Modemstate v)
  with assms sterm_modemstate_poller [of s v] show ?thesis by auto
next
  case Timer_stopped
  with assms show ?thesis by (auto simp: sterm_timer_stopped_def)
next
  case (Check_close_drain st os)
  with assms sterm_check_close_drain_poller [of os s st] show ?thesis
    by (auto split: prod.splits)
next
  case (Sub_open os)
  with assms sterm_sub_open_poller [of os s] show ?thesis
    by (auto split: prod.splits)
qed

lemma run_last_modemstate_le:
  "last_modemstate s \<le> 0xFF \<Longrightarrow> run h s cs = Ret (s', tr) \<Longrightarrow> last_modemstate s' \<le> 0xFF"
proof (induction cs arbitrary: s tr)
  case Nil
  then show ?case by simp
next
  case (Cons c cs)
  from Cons.prems(2) obtain s1 tr1 tr2 where a: "api h s c = Ret (s1, tr1)"
    and r: "run h s1 cs = Ret (s', tr2)"
    by (auto split: ub.splits)
  from api_last_modemstate_le [OF Cons.prems(1) a] Cons.IH [OF _ r] show ?case
    by simp
qed

lemma reachable_last_modemstate_le:
  "run h (termios_gensio_alloc wronly dt) cs = Ret (s', tr) \<Longrightarrow> last_modemstate s' \<le> 0xFF"
  by (rule run_last_modemstate_le [of "termios_gensio_alloc wronly dt"])
     (simp_all add: termios_gensio_alloc_def)

end
